theory Spec2Isabelle
  imports Complex_Main
begin

section \<open>Data model\<close>

text \<open>
  A Python \<open>str\<close> that arrives in a request (a sentence, the name of a member of
  the body) is a list of code points, so that \<open>length\<close> counts what \<open>len\<close> and the
  schema's \<open>max_length\<close> count, and so that a lone surrogate, which a JSON escape
  can put into a \<open>str\<close>, is a value of the type. Labels and messages are only ever
  compared or passed on; they are plain \<open>string\<close>s. A confidence score is a
  \<open>float\<close> in the source; here it is the rational number that the float denotes (no
  NaN, no infinities).
\<close>

type_synonym py_str = "nat list"

text \<open>The exceptions that the handlers tell apart: \<open>RuntimeError\<close> (or a subclass of
  it) with its \<open>str(exc)\<close>, and every other subclass of \<open>Exception\<close>.\<close>

datatype exc =
    RuntimeError string
  | IndexError
  | ValueError
  | OtherException string

text \<open>The dictionaries \<open>{"label": ..., "score": ...}\<close> that the pipeline returns and that
  \<open>predict_single\<close> builds; a batch result adds the sentence.\<close>

record prediction =
  label :: string
  score :: rat

record batch_item = prediction +
  sentence :: py_str

text \<open>The cached pipeline is one callable, invoked as \<open>pipe(sentence)\<close> and as
  \<open>pipe(sentences, batch_size=16)\<close>. It returns a list of score lists, or raises.\<close>

datatype pipe_arg =
    Single py_str
  | Batch "py_str list" nat

type_synonym pipe = "pipe_arg \<Rightarrow> exc + prediction list list"

text \<open>Calls that leave the process, in the order in which they are made.\<close>

datatype effect =
    TokenizerFromPretrained string
  | ModelFromPretrained string
  | BuildPipeline int
  | Infer pipe_arg

text \<open>The module-level singletons of \<open>app/model.py\<close>, together with the record of the
  external calls made so far.\<close>

record world =
  pipeline :: "pipe option"
  load_time_ms :: "rat option"
  trace :: "effect list"

definition MODEL_NAME :: string where
  "MODEL_NAME = ''bvanaken/clinical-assertion-negation-bert''"

section \<open>Python built-ins used by the program\<close>

text \<open>\<open>str.isspace\<close> for one code point, and \<open>str.strip()\<close> without arguments.\<close>

definition py_isspace :: "nat \<Rightarrow> bool" where
  "py_isspace c \<longleftrightarrow>
     (9 \<le> c \<and> c \<le> 13) \<or> (28 \<le> c \<and> c \<le> 32) \<or> c = 133 \<or> c = 160 \<or> c = 5760 \<or>
     (8192 \<le> c \<and> c \<le> 8202) \<or> c = 8232 \<or> c = 8233 \<or> c = 8239 \<or> c = 8287 \<or> c = 12288"

definition py_strip :: "py_str \<Rightarrow> py_str" where
  "py_strip s = rev (dropWhile py_isspace (rev (dropWhile py_isspace s)))"

text \<open>The \<open>str\<close> of an ASCII literal of the program.\<close>

definition ascii :: "string \<Rightarrow> py_str" where
  "ascii s = map of_char s"

text \<open>A \<open>str\<close> can be encoded as UTF-8 when none of its code points is a surrogate.\<close>

definition is_surrogate :: "nat \<Rightarrow> bool" where
  "is_surrogate c \<longleftrightarrow> 55296 \<le> c \<and> c \<le> 57343"

definition well_formed :: "py_str \<Rightarrow> bool" where
  "well_formed s = list_all (\<lambda>c. \<not> is_surrogate c) s"

text \<open>\<open>round(x, n)\<close>: the multiple of \<open>10 ^ - n\<close> nearest to \<open>x\<close>, the even one of two
  that are equally near.\<close>

definition round_half_even :: "rat \<Rightarrow> int" where
  "round_half_even x =
     (let f = \<lfloor>x\<rfloor>; d = x - of_int f
      in if d < 1 / 2 then f
         else if 1 / 2 < d then f + 1
         else if even f then f else f + 1)"

definition py_round :: "rat \<Rightarrow> nat \<Rightarrow> rat" where
  "py_round x n = of_int (round_half_even (x * 10 ^ n)) / 10 ^ n"

text \<open>\<open>max(xs, key=...)\<close>: \<open>ValueError\<close> on an empty list; otherwise the running maximum
  is replaced only by an element whose key is strictly greater.\<close>

fun py_max :: "('a \<Rightarrow> 'k::linorder) \<Rightarrow> 'a list \<Rightarrow> exc + 'a" where
  "py_max key [] = Inl ValueError"
| "py_max key (x # xs) = Inr (foldl (\<lambda>best y. if key best < key y then y else best) x xs)"

section \<open>\<open>app/model.py\<close>\<close>

text \<open>What \<open>load_model\<close> reads from outside the module: whether CUDA is available, the
  two \<open>from_pretrained\<close> loaders, the \<open>pipeline\<close> factory, and the two readings of
  \<open>time.perf_counter()\<close>.\<close>

record ('t, 'm) pipe_config =
  task :: string
  cfg_model :: 'm
  cfg_tokenizer :: 't
  cfg_device :: int
  top_k :: "nat option"
  truncation :: bool
  max_length :: nat

record ('t, 'm) env =
  cuda_is_available :: bool
  tokenizer_from_pretrained :: "string \<Rightarrow> exc + 't"
  model_from_pretrained :: "string \<Rightarrow> exc + 'm"
  make_pipeline :: "('t, 'm) pipe_config \<Rightarrow> exc + pipe"
  perf_counter_start :: rat
  perf_counter_end :: rat

definition log_effect :: "effect \<Rightarrow> world \<Rightarrow> world" where
  "log_effect e w = w\<lparr>trace := trace w @ [e]\<rparr>"

definition load_model :: "('t, 'm) env \<Rightarrow> world \<Rightarrow> (exc + unit) \<times> world" where
  "load_model env w =
     (case pipeline w of
        Some _ \<Rightarrow> (Inr (), w)
      | None \<Rightarrow>
          (let start = perf_counter_start env;
               device = (if cuda_is_available env then 0 else - 1);
               w1 = log_effect (TokenizerFromPretrained MODEL_NAME) w
           in case tokenizer_from_pretrained env MODEL_NAME of
                Inl e \<Rightarrow> (Inl e, w1)
              | Inr tokenizer \<Rightarrow>
                  (let w2 = log_effect (ModelFromPretrained MODEL_NAME) w1
                   in case model_from_pretrained env MODEL_NAME of
                        Inl e \<Rightarrow> (Inl e, w2)
                      | Inr model \<Rightarrow>
                          (let w3 = log_effect (BuildPipeline device) w2
                           in case make_pipeline env
                                     \<lparr>task = ''text-classification'', cfg_model = model,
                                      cfg_tokenizer = tokenizer, cfg_device = device,
                                      top_k = None, truncation = True, max_length = 512\<rparr> of
                                Inl e \<Rightarrow> (Inl e, w3)
                              | Inr p \<Rightarrow>
                                  (let elapsed = (perf_counter_end env - start) * 1000
                                   in (Inr (), w3\<lparr>pipeline := Some p,
                                                  load_time_ms := Some elapsed\<rparr>))))))"

definition get_pipeline :: "world \<Rightarrow> exc + pipe" where
  "get_pipeline w =
     (case pipeline w of
        None \<Rightarrow> Inl (RuntimeError
          ''Model pipeline is not initialised. Ensure load_model() was called during application startup.'')
      | Some p \<Rightarrow> Inr p)"

definition predict_single :: "world \<Rightarrow> py_str \<Rightarrow> (exc + prediction) \<times> world" where
  "predict_single w s =
     (case get_pipeline w of
        Inl e \<Rightarrow> (Inl e, w)
      | Inr pipe \<Rightarrow>
          (let w' = log_effect (Infer (Single s)) w
           in case pipe (Single s) of
                Inl e \<Rightarrow> (Inl e, w')
              | Inr raw \<Rightarrow>
                  (case raw of
                     [] \<Rightarrow> (Inl IndexError, w')
                   | all_scores # _ \<Rightarrow>
                       (case py_max score all_scores of
                          Inl e \<Rightarrow> (Inl e, w')
                        | Inr best \<Rightarrow>
                            (Inr \<lparr>label = label best, score = py_round (score best) 4\<rparr>, w')))))"

text \<open>The loop of \<open>predict_batch\<close> over \<open>zip(sentences, raw)\<close>, with \<open>results\<close> as
  accumulator.\<close>

fun batch_loop ::
  "(py_str \<times> prediction list) list \<Rightarrow> batch_item list \<Rightarrow> exc + batch_item list" where
  "batch_loop [] results = Inr results"
| "batch_loop ((s, all_scores) # rest) results =
     (case py_max score all_scores of
        Inl e \<Rightarrow> Inl e
      | Inr best \<Rightarrow>
          batch_loop rest
            (results @ [\<lparr>label = label best, score = py_round (score best) 4, sentence = s\<rparr>]))"

definition predict_batch :: "world \<Rightarrow> py_str list \<Rightarrow> (exc + batch_item list) \<times> world" where
  "predict_batch w sentences =
     (case get_pipeline w of
        Inl e \<Rightarrow> (Inl e, w)
      | Inr pipe \<Rightarrow>
          (let w' = log_effect (Infer (Batch sentences 16)) w
           in case pipe (Batch sentences 16) of
                Inl e \<Rightarrow> (Inl e, w')
              | Inr raw \<Rightarrow> (batch_loop (zip sentences raw) [], w')))"

record model_info =
  info_model_name :: string
  info_loaded :: bool
  info_load_time_ms :: "rat option"
  info_device :: string
  info_labels :: "string list"

definition get_model_info :: "('t, 'm) env \<Rightarrow> world \<Rightarrow> model_info" where
  "get_model_info env w =
     \<lparr>info_model_name = MODEL_NAME,
      info_loaded = (case pipeline w of None \<Rightarrow> False | Some _ \<Rightarrow> True),
      info_load_time_ms =
        (case load_time_ms w of
           None \<Rightarrow> None
         | Some t \<Rightarrow> if t = 0 then None else Some (py_round t 1)),
      info_device = (if cuda_is_available env then ''GPU (CUDA)'' else ''CPU''),
      info_labels = [''PRESENT'', ''ABSENT'', ''CONDITIONAL'']\<rparr>"

section \<open>\<open>app/schemas.py\<close>\<close>

text \<open>A request body after JSON decoding. An object keeps its members in the order
  of the text; of two members with the same name the decoder keeps the later one.\<close>

datatype json =
    JNull
  | JBool bool
  | JNum rat
  | JStr py_str
  | JArr "json list"
  | JObj "(py_str \<times> json) list"

text \<open>Whether a value can be written as UTF-8 JSON: no string in it, and no name of a
  member, holds a lone surrogate.\<close>

fun encodable :: "json \<Rightarrow> bool" where
  "encodable (JStr s) = well_formed s"
| "encodable (JArr xs) = list_all encodable xs"
| "encodable (JObj kvs) = list_all (\<lambda>kv. well_formed (fst kv) \<and> encodable (snd kv)) kvs"
| "encodable _ = True"

text \<open>Why a model was rejected: the schema's own checks, and the \<open>ValueError\<close>s of the
  two field validators (\<open>Blank\<close>, and \<open>BlankItem i\<close> for \<open>sentences[i]\<close>). The
  schema reports each error together with the input that it is about.\<close>

datatype verr =
    DictType
  | Missing
  | StringType
  | StringUnicode
  | StringTooShort
  | StringTooLong
  | ListType
  | ItemStringType nat
  | TooShort
  | TooLong
  | Blank
  | BlankItem nat
  | GreaterThanEqual
  | LessThanEqual

type_synonym line_error = "verr \<times> json"

definition field :: "py_str \<Rightarrow> json \<Rightarrow> line_error list + json" where
  "field k body =
     (case body of
        JObj kvs \<Rightarrow>
          (case map_of (rev kvs) k of None \<Rightarrow> Inl [(Missing, body)] | Some v \<Rightarrow> Inr v)
      | _ \<Rightarrow> Inl [(DictType, body)])"

text \<open>\<open>Annotated[str, Field(min_length=lo, max_length=hi)]\<close>: a string that can be
  encoded as UTF-8, then measured as it arrived.\<close>

definition str_field :: "nat \<Rightarrow> nat \<Rightarrow> json \<Rightarrow> line_error list + py_str" where
  "str_field lo hi v =
     (case v of
        JStr s \<Rightarrow>
          if \<not> well_formed s then Inl [(StringUnicode, v)]
          else if length s < lo then Inl [(StringTooShort, v)]
          else if hi < length s then Inl [(StringTooLong, v)]
          else Inr s
      | _ \<Rightarrow> Inl [(StringType, v)])"

text \<open>The items of a \<open>list[str]\<close>: each one a string, taken as it is, with no bound on
  its length. Every item that is not a string is reported.\<close>

fun str_items :: "nat \<Rightarrow> json list \<Rightarrow> line_error list \<times> py_str list" where
  "str_items i [] = ([], [])"
| "str_items i (x # xs) =
     (case str_items (Suc i) xs of
        (errs, ss) \<Rightarrow>
          (case x of
             JStr s \<Rightarrow> (errs, s # ss)
           | _ \<Rightarrow> ((ItemStringType i, x) # errs, ss)))"

text \<open>\<open>Annotated[list[str], Field(min_length=lo, max_length=hi)]\<close>: the bounds are on
  the number of items. A list with too many items is rejected for that alone; otherwise
  the errors of the items are reported, and the lower bound is checked last.\<close>

definition str_list_field :: "nat \<Rightarrow> nat \<Rightarrow> json \<Rightarrow> line_error list + py_str list" where
  "str_list_field lo hi v =
     (case v of
        JArr xs \<Rightarrow>
          if hi < length xs then Inl [(TooLong, v)]
          else
            (case str_items 0 xs of
               (e # errs, _) \<Rightarrow> Inl (e # errs)
             | ([], ss) \<Rightarrow> if length ss < lo then Inl [(TooShort, v)] else Inr ss)
      | _ \<Rightarrow> Inl [(ListType, v)])"

record predict_request =
  request_sentence :: py_str

definition sentence_must_not_be_blank :: "py_str \<Rightarrow> verr + py_str" where
  "sentence_must_not_be_blank v = (if py_strip v = [] then Inl Blank else Inr (py_strip v))"

definition PredictRequest :: "json \<Rightarrow> line_error list + predict_request" where
  "PredictRequest body =
     (case field (ascii ''sentence'') body of
        Inl errs \<Rightarrow> Inl errs
      | Inr v \<Rightarrow>
          (case str_field 1 2048 v of
             Inl errs \<Rightarrow> Inl errs
           | Inr s \<Rightarrow>
               (case sentence_must_not_be_blank s of
                  Inl e \<Rightarrow> Inl [(e, JStr s)]
                | Inr s' \<Rightarrow> Inr \<lparr>request_sentence = s'\<rparr>)))"

record batch_predict_request =
  request_sentences :: "py_str list"

text \<open>The loop of \<open>validate_sentences\<close> over \<open>enumerate(v)\<close>. It runs after the schema
  has accepted the list, so every item is a string and \<open>isinstance(s, str)\<close> holds.\<close>

fun validate_sentences_loop :: "nat \<Rightarrow> py_str list \<Rightarrow> py_str list \<Rightarrow> verr + py_str list" where
  "validate_sentences_loop i [] cleaned = Inr cleaned"
| "validate_sentences_loop i (s # v) cleaned =
     (if py_strip s = [] then Inl (BlankItem i)
      else validate_sentences_loop (Suc i) v (cleaned @ [py_strip s]))"

definition validate_sentences :: "py_str list \<Rightarrow> verr + py_str list" where
  "validate_sentences v = validate_sentences_loop 0 v []"

definition BatchPredictRequest :: "json \<Rightarrow> line_error list + batch_predict_request" where
  "BatchPredictRequest body =
     (case field (ascii ''sentences'') body of
        Inl errs \<Rightarrow> Inl errs
      | Inr v \<Rightarrow>
          (case str_list_field 1 64 v of
             Inl errs \<Rightarrow> Inl errs
           | Inr ss \<Rightarrow>
               (case validate_sentences ss of
                  Inl e \<Rightarrow> Inl [(e, JArr (map JStr ss))]
                | Inr cleaned \<Rightarrow> Inr \<lparr>request_sentences = cleaned\<rparr>)))"

text \<open>The response models: \<open>label\<close> is any \<open>str\<close>; \<open>score\<close> has \<open>ge=0.0, le=1.0\<close>.\<close>

definition score_field :: "rat \<Rightarrow> verr + rat" where
  "score_field x =
     (if \<not> 0 \<le> x then Inl GreaterThanEqual
      else if \<not> x \<le> 1 then Inl LessThanEqual
      else Inr x)"

definition PredictResponse :: "prediction \<Rightarrow> verr + prediction" where
  "PredictResponse result =
     (case score_field (score result) of
        Inl e \<Rightarrow> Inl e
      | Inr x \<Rightarrow> Inr \<lparr>label = label result, score = x\<rparr>)"

definition BatchPredictItem :: "batch_item \<Rightarrow> verr + batch_item" where
  "BatchPredictItem r =
     (case score_field (score r) of
        Inl e \<Rightarrow> Inl e
      | Inr x \<Rightarrow> Inr \<lparr>label = label r, score = x, sentence = sentence r\<rparr>)"

record batch_predict_response =
  results :: "batch_item list"
  count :: nat

record health_response =
  health_status :: string
  health_model_name :: string
  health_model_loaded :: bool
  health_device :: string

section \<open>\<open>app/main.py\<close>\<close>

datatype content =
    Detail string
  | ValidationDetail "line_error list"
  | PredictContent prediction
  | BatchContent batch_predict_response
  | HealthContent health_response

datatype http_response = Response (status_code: nat) (content: content)

text \<open>What the handler registered for \<open>Exception\<close> answers to an exception that leaves a
  route, or that is raised while an answer is written.\<close>

definition generic_exception_handler :: http_response where
  "generic_exception_handler =
     Response 500 (Detail ''Internal server error. Please try again later.'')"

definition health :: "('t, 'm) env \<Rightarrow> world \<Rightarrow> http_response \<times> world" where
  "health env w =
     (let info = get_model_info env w
      in if \<not> info_loaded info
         then (Response 503 (Detail ''Model is not yet loaded. Service is not ready.''), w)
         else (Response 200 (HealthContent
                 \<lparr>health_status = ''ok'', health_model_name = info_model_name info,
                  health_model_loaded = info_loaded info, health_device = info_device info\<rparr>), w))"

definition predict :: "world \<Rightarrow> predict_request \<Rightarrow> http_response \<times> world" where
  "predict w request =
     (case predict_single w (request_sentence request) of
        (Inl (RuntimeError msg), w') \<Rightarrow> (Response 503 (Detail msg), w')
      | (Inl _, w') \<Rightarrow> (Response 500 (Detail ''Prediction failed.''), w')
      | (Inr result, w') \<Rightarrow>
          (case PredictResponse result of
             Inl _ \<Rightarrow> (generic_exception_handler, w')
           | Inr r \<Rightarrow> (Response 200 (PredictContent r), w')))"

text \<open>The comprehension \<open>[BatchPredictItem(**r) for r in results]\<close>: the first item that
  the model rejects raises.\<close>

fun batch_items :: "batch_item list \<Rightarrow> verr + batch_item list" where
  "batch_items [] = Inr []"
| "batch_items (r # rs) =
     (case BatchPredictItem r of
        Inl e \<Rightarrow> Inl e
      | Inr item \<Rightarrow> (case batch_items rs of Inl e \<Rightarrow> Inl e | Inr items \<Rightarrow> Inr (item # items)))"

definition predict_batch_endpoint ::
  "world \<Rightarrow> batch_predict_request \<Rightarrow> http_response \<times> world" where
  "predict_batch_endpoint w request =
     (case predict_batch w (request_sentences request) of
        (Inl (RuntimeError msg), w') \<Rightarrow> (Response 503 (Detail msg), w')
      | (Inl _, w') \<Rightarrow> (Response 500 (Detail ''Batch prediction failed.''), w')
      | (Inr rs, w') \<Rightarrow>
          (case batch_items rs of
             Inl _ \<Rightarrow> (generic_exception_handler, w')
           | Inr items \<Rightarrow>
               (Response 200 (BatchContent \<lparr>results = items, count = length items\<rparr>), w')))"

text \<open>The framework around the two POST routes. The body is validated against the
  request model first, and the route is entered only with an accepted request. A
  rejected body is answered with 422 and the errors, each with its input. Every answer
  is written as UTF-8 JSON: when an input reported with an error, or a sentence in a
  batch response, holds a lone surrogate, writing fails and the handler registered for
  \<open>Exception\<close> answers instead.\<close>

definition request_validation_error :: "line_error list \<Rightarrow> http_response" where
  "request_validation_error errs =
     (if list_all (\<lambda>e. encodable (snd e)) errs then Response 422 (ValidationDetail errs)
      else generic_exception_handler)"

definition serialize_response :: "http_response \<Rightarrow> http_response" where
  "serialize_response r =
     (case content r of
        BatchContent resp \<Rightarrow>
          if list_all (\<lambda>item. well_formed (sentence item)) (results resp) then r
          else generic_exception_handler
      | _ \<Rightarrow> r)"

definition post_predict :: "world \<Rightarrow> json \<Rightarrow> http_response \<times> world" where
  "post_predict w body =
     (case PredictRequest body of
        Inl errs \<Rightarrow> (request_validation_error errs, w)
      | Inr request \<Rightarrow>
          (case predict w request of (r, w') \<Rightarrow> (serialize_response r, w')))"

definition post_predict_batch :: "world \<Rightarrow> json \<Rightarrow> http_response \<times> world" where
  "post_predict_batch w body =
     (case BatchPredictRequest body of
        Inl errs \<Rightarrow> (request_validation_error errs, w)
      | Inr request \<Rightarrow>
          (case predict_batch_endpoint w request of (r, w') \<Rightarrow> (serialize_response r, w')))"

section \<open>Properties of the results, and example data\<close>

text \<open>What \<open>predict_batch\<close> appends for one pair of \<open>zip(sentences, raw)\<close>.\<close>

definition result_for :: "py_str \<times> prediction list \<Rightarrow> batch_item \<Rightarrow> bool" where
  "result_for z r =
     (case py_max score (snd z) of
        Inl _ \<Rightarrow> False
      | Inr best \<Rightarrow>
          r = \<lparr>label = label best, score = py_round (score best) 4, sentence = fst z\<rparr>)"

definition closed_labels :: "string set" where
  "closed_labels = {''PRESENT'', ''ABSENT'', ''CONDITIONAL''}"

text \<open>States of the module before and after a successful \<open>load_model\<close>.\<close>

definition not_ready :: world where
  "not_ready = \<lparr>pipeline = None, load_time_ms = None, trace = []\<rparr>"

definition ready :: "pipe \<Rightarrow> world" where
  "ready p = \<lparr>pipeline = Some p, load_time_ms = Some 1500, trace = []\<rparr>"

text \<open>Providers: one that answers every sentence with the same three scores, two of
  them equal; one that answers a batch with a single score list; one whose model
  names a label outside the documented set; one that fails with a \<open>RuntimeError\<close>.\<close>

definition three_scores :: "prediction list" where
  "three_scores =
     [\<lparr>label = ''PRESENT'', score = 1 / 50\<rparr>,
      \<lparr>label = ''ABSENT'', score = 49 / 100\<rparr>,
      \<lparr>label = ''CONDITIONAL'', score = 49 / 100\<rparr>]"

definition tie_pipe :: pipe where
  "tie_pipe arg =
     (case arg of
        Single s \<Rightarrow> Inr [three_scores]
      | Batch ss n \<Rightarrow> Inr (map (\<lambda>s. three_scores) ss))"


definition possible_pipe :: pipe where
  "possible_pipe arg = Inr [[\<lparr>label = ''POSSIBLE'', score = 9 / 10\<rparr>]]"

definition oom_pipe :: pipe where
  "oom_pipe arg = Inl (RuntimeError ''CUDA out of memory'')"

definition cpu_env :: "(unit, unit) env" where
  "cpu_env =
     \<lparr>cuda_is_available = False,
      tokenizer_from_pretrained = (\<lambda>name. Inr ()),
      model_from_pretrained = (\<lambda>name. Inr ()),
      make_pipeline = (\<lambda>cfg. Inr tie_pipe),
      perf_counter_start = 10,
      perf_counter_end = 23 / 2\<rparr>"


definition spec_valid_element :: "json \<Rightarrow> bool" where
  "spec_valid_element x =
     (case x of JStr s \<Rightarrow> py_strip s \<noteq> [] \<and> length s \<le> 2048 | _ \<Rightarrow> False)"

definition spec_valid_sentences :: "json \<Rightarrow> bool" where
  "spec_valid_sentences body =
     (case field (ascii ''sentences'') body of
        Inr (JArr xs) \<Rightarrow> 1 \<le> length xs \<and> length xs \<le> 64 \<and> list_all spec_valid_element xs
      | _ \<Rightarrow> False)"

text \<open>A sentence of 2049 letters \<open>a\<close>, alone in a batch.\<close>

definition long_sentence :: py_str where
  "long_sentence = replicate 2049 97"

text \<open>Bodies with one member: a sentence, and a list of sentences.\<close>

definition sentence_body :: "json \<Rightarrow> json" where
  "sentence_body v = JObj [(ascii ''sentence'', v)]"

definition sentences_body :: "py_str list \<Rightarrow> json" where
  "sentences_body ss = JObj [(ascii ''sentences'', JArr (map JStr ss))]"

definition long_batch :: json where
  "long_batch = sentences_body [long_sentence]"

section \<open>Lemmas about the built-ins\<close>

lemma foldl_keep:
  "\<forall>y\<in>set ys. key y \<le> key b \<Longrightarrow>
   foldl (\<lambda>best y. if key best < key y then y else best) b ys = (b::'a)"
  for key :: "'a \<Rightarrow> 'k::linorder"
  by (induction ys) auto

lemma foldl_reach:
  "key a < key b \<Longrightarrow> \<forall>y\<in>set pre. key y < key b \<Longrightarrow>
   foldl (\<lambda>best y. if key best < key y then y else best) a (pre @ [b]) = (b::'a)"
  for key :: "'a \<Rightarrow> 'k::linorder"
  by (induction pre arbitrary: a) auto

lemma py_max_decomp:
  assumes "\<forall>y\<in>set pre. key y < key b" and "\<forall>y\<in>set post. key y \<le> key b"
  shows "py_max key (pre @ b # post) = Inr b"
proof (cases pre)
  case Nil
  with assms show ?thesis by (simp add: foldl_keep)
next
  case (Cons a pre')
  let ?f = "\<lambda>best y. if key best < key y then y else best"
  have 1: "foldl ?f a (pre' @ [b]) = b"
    using assms(1) Cons by (intro foldl_reach) auto
  have "foldl ?f a (pre' @ b # post) = foldl ?f (foldl ?f a (pre' @ [b])) post"
    by simp
  also have "\<dots> = b"
    unfolding 1 using assms(2) by (rule foldl_keep)
  finally show ?thesis using Cons by simp
qed

lemma first_max_exists:
  "xs \<noteq> [] \<Longrightarrow> \<exists>pre b post. xs = pre @ b # post \<and>
     (\<forall>y\<in>set pre. key y < key b) \<and> (\<forall>y\<in>set post. key y \<le> key b)"
  for key :: "'a \<Rightarrow> 'k::linorder"
proof (induction xs)
  case Nil
  then show ?case by simp
next
  case (Cons x xs)
  show ?case
  proof (cases "xs = []")
    case True
    then have "x # xs = [] @ x # []" by simp
    then show ?thesis by (metis empty_iff list.set(1))
  next
    case False
    with Cons.IH obtain pre b post where d: "xs = pre @ b # post"
      "\<forall>y\<in>set pre. key y < key b" "\<forall>y\<in>set post. key y \<le> key b" by blast
    show ?thesis
    proof (cases "key x < key b")
      case True
      with d have "x # xs = (x # pre) @ b # post" "\<forall>y\<in>set (x # pre). key y < key b" by auto
      with d(3) show ?thesis by blast
    next
      case False
      with d have "x # xs = [] @ x # xs" "\<forall>y\<in>set xs. key y \<le> key x" by auto
      then show ?thesis by (metis empty_iff list.set(1))
    qed
  qed
qed

lemma py_max_Inr_iff:
  "py_max key xs = Inr b \<longleftrightarrow>
     (\<exists>pre post. xs = pre @ b # post \<and>
        (\<forall>y\<in>set pre. key y < key b) \<and> (\<forall>y\<in>set post. key y \<le> key b))"
  for key :: "'a \<Rightarrow> 'k::linorder"
proof
  assume r: "py_max key xs = Inr b"
  then have "xs \<noteq> []" by auto
  from first_max_exists [OF this, of key] obtain pre b' post where d: "xs = pre @ b' # post"
      "\<forall>y\<in>set pre. key y < key b'" "\<forall>y\<in>set post. key y \<le> key b'" by blast
  then have "py_max key xs = Inr b'" by (simp add: py_max_decomp)
  with r have "b' = b" by simp
  with d show "\<exists>pre post. xs = pre @ b # post \<and>
        (\<forall>y\<in>set pre. key y < key b) \<and> (\<forall>y\<in>set post. key y \<le> key b)" by blast
next
  assume "\<exists>pre post. xs = pre @ b # post \<and>
        (\<forall>y\<in>set pre. key y < key b) \<and> (\<forall>y\<in>set post. key y \<le> key b)"
  then show "py_max key xs = Inr b" by (auto simp: py_max_decomp)
qed

lemma py_max_Inl_iff: "py_max key xs = Inl e \<longleftrightarrow> xs = [] \<and> e = ValueError"
  by (cases xs) auto

lemma py_max_mem: "py_max key xs = Inr b \<Longrightarrow> b \<in> set xs"
  by (auto simp: py_max_Inr_iff)

lemma round_half_even_near: "\<bar>of_int (round_half_even x) - x\<bar> \<le> 1 / 2"
proof -
  have lo: "of_int \<lfloor>x\<rfloor> \<le> x" and hi: "x < of_int \<lfloor>x\<rfloor> + 1"
    by linarith+
  show ?thesis
    unfolding round_half_even_def Let_def using lo hi
    by (simp add: abs_le_iff)
qed

lemma py_round_near: "\<bar>py_round x n - x\<bar> \<le> 1 / (2 * 10 ^ n)"
proof -
  have p: "(0::rat) < 10 ^ n" by simp
  let ?k = "of_int (round_half_even (x * 10 ^ n)) :: rat"
  have "py_round x n - x = (?k - x * 10 ^ n) / 10 ^ n"
    unfolding py_round_def using p by (simp add: field_simps)
  then have "\<bar>py_round x n - x\<bar> = \<bar>?k - x * 10 ^ n\<bar> / 10 ^ n"
    using p by simp
  also have "\<dots> \<le> (1 / 2) / 10 ^ n"
    using round_half_even_near [of "x * 10 ^ n"] p by (intro divide_right_mono) auto
  finally show ?thesis by simp
qed

lemma py_round_grid: "\<exists>k::int. py_round x n = of_int k / 10 ^ n"
  unfolding py_round_def by blast

lemma round_half_even_nonneg: "0 \<le> x \<Longrightarrow> 0 \<le> round_half_even x"
  unfolding round_half_even_def Let_def by (auto intro: add_nonneg_nonneg)

lemma round_half_even_le:
  assumes "x \<le> of_int N"
  shows "round_half_even x \<le> N"
proof -
  have f: "\<lfloor>x\<rfloor> \<le> N" using assms by (simp add: floor_le_iff)
  show ?thesis
  proof (cases "\<lfloor>x\<rfloor> = N")
    case True
    then have "of_int N \<le> x" by (metis of_int_floor_le)
    with assms have "x = of_int N" by simp
    then show ?thesis by (simp add: round_half_even_def)
  next
    case False
    with f have "\<lfloor>x\<rfloor> + 1 \<le> N" by simp
    with f show ?thesis unfolding round_half_even_def Let_def by auto
  qed
qed

lemma py_round_unit_interval:
  assumes "0 \<le> x" and "x \<le> 1"
  shows "0 \<le> py_round x n \<and> py_round x n \<le> 1"
proof -
  have p: "(0::rat) < 10 ^ n" by simp
  have "0 \<le> x * 10 ^ n" using assms(1) by simp
  then have lo: "0 \<le> round_half_even (x * 10 ^ n)" by (rule round_half_even_nonneg)
  have "x * 10 ^ n \<le> of_int (10 ^ n)" using assms(2) by (simp add: mult_le_cancel_right1)
  then have hi: "round_half_even (x * 10 ^ n) \<le> 10 ^ n" by (rule round_half_even_le)
  have "(of_int (round_half_even (x * 10 ^ n)) :: rat) \<le> of_int (10 ^ n)"
    using hi by (simp only: of_int_le_iff)
  then have "(of_int (round_half_even (x * 10 ^ n)) :: rat) \<le> 10 ^ n" by simp
  with lo p show ?thesis by (simp add: py_round_def divide_le_eq_1)
qed

lemma of_char_less_256: "of_char c < (256::nat)"
proof -
  have "of_char c = (of_char c :: nat) mod 256" by (simp add: of_char_mod_256)
  also have "\<dots> < 256" by simp
  finally show ?thesis .
qed

lemma well_formed_ascii: "well_formed (ascii s)"
proof -
  have "\<not> is_surrogate (of_char c)" for c :: char
    using of_char_less_256 [of c] unfolding is_surrogate_def by linarith
  then show ?thesis by (simp add: well_formed_def ascii_def list_all_iff)
qed

lemma well_formed_replicate: "\<not> is_surrogate c \<Longrightarrow> well_formed (replicate n c)"
  by (simp add: well_formed_def list_all_iff)

lemma py_strip_replicate: "\<not> py_isspace c \<Longrightarrow> py_strip (replicate n c) = replicate n c"
  by (simp add: py_strip_def)

lemma field_member:
  "field k body = Inr v \<Longrightarrow> \<exists>kvs. body = JObj kvs \<and> (k, v) \<in> set kvs"
  by (auto simp: field_def split: json.splits option.splits dest!: map_of_SomeD)

lemma field_encodable: "field k body = Inr v \<Longrightarrow> encodable body \<Longrightarrow> encodable v"
  by (fastforce dest!: field_member simp: list_all_iff)

lemma field_sentence_body [simp]: "field (ascii ''sentence'') (sentence_body v) = Inr v"
  by (simp add: field_def sentence_body_def)

lemma field_sentences_body [simp]:
  "field (ascii ''sentences'') (sentences_body ss) = Inr (JArr (map JStr ss))"
  by (simp add: field_def sentences_body_def)

section \<open>Selecting the prediction\<close>

text \<open>
  C5. On a loaded model, when the pipeline answers a single sentence with a list whose
  first element is a non-empty list of scores, \<open>predict_single\<close> returns the label of
  the first entry, in the order the pipeline returned, whose score no other entry
  exceeds: every entry before it has a strictly smaller score and every entry after it
  a score at most as large. The score returned is that entry's score rounded to four
  decimal digits: a multiple of \<open>1 / 10000\<close> at distance at most \<open>1 / 20000\<close>.
\<close>

theorem predict_single_first_max:
  assumes "pipeline w = Some p"
    and "p (Single s) = Inr (all_scores # rest)"
    and "all_scores \<noteq> []"
  shows "\<exists>pre best post.
           all_scores = pre @ best # post \<and>
           (\<forall>y\<in>set pre. score y < score best) \<and>
           (\<forall>y\<in>set post. score y \<le> score best) \<and>
           fst (predict_single w s) =
             Inr \<lparr>label = label best, score = py_round (score best) 4\<rparr> \<and>
           (\<exists>k::int. py_round (score best) 4 = of_int k / 10000) \<and>
           \<bar>py_round (score best) 4 - score best\<bar> \<le> 1 / 20000"
proof -
  from first_max_exists [OF assms(3), of score] obtain pre best post
    where d: "all_scores = pre @ best # post"
      "\<forall>y\<in>set pre. score y < score best" "\<forall>y\<in>set post. score y \<le> score best"
    by blast
  then have m: "py_max score all_scores = Inr best"
    by (simp add: py_max_decomp)
  have r: "fst (predict_single w s) =
      Inr \<lparr>label = label best, score = py_round (score best) 4\<rparr>"
    using assms(1,2) m by (simp add: predict_single_def get_pipeline_def Let_def)
  have g: "\<exists>k::int. py_round (score best) 4 = of_int k / 10000"
    using py_round_grid [of "score best" 4] by simp
  have n: "\<bar>py_round (score best) 4 - score best\<bar> \<le> 1 / 20000"
    using py_round_near [of "score best" 4] by simp
  from d r g n show ?thesis by blast
qed

text \<open>With the scores 0.02, 0.49 and 0.49 the second entry is chosen, not the third.\<close>

theorem predict_single_first_max_witness:
  "pipeline (ready tie_pipe) = Some tie_pipe \<and>
   tie_pipe (Single [97]) = Inr (three_scores # []) \<and>
   three_scores \<noteq> [] \<and>
   fst (predict_single (ready tie_pipe) [97]) = Inr \<lparr>label = ''ABSENT'', score = 49 / 100\<rparr>"
proof -
  have h1: "pipeline (ready tie_pipe) = Some tie_pipe" by (simp add: ready_def)
  have h2: "tie_pipe (Single [97]) = Inr (three_scores # [])" by (simp add: tie_pipe_def)
  have h3: "three_scores \<noteq> []" by (simp add: three_scores_def)
  from predict_single_first_max [OF h1 h2 h3] obtain pre best post where
    d: "three_scores = pre @ best # post"
       "\<forall>y\<in>set pre. score y < score best" "\<forall>y\<in>set post. score y \<le> score best"
       "fst (predict_single (ready tie_pipe) [97]) =
             Inr \<lparr>label = label best, score = py_round (score best) 4\<rparr>"
    by blast
  have "py_max score (pre @ best # post) = Inr best"
    using d(2,3) by (rule py_max_decomp)
  then have "py_max score three_scores = Inr best"
    by (simp only: d(1) [symmetric])
  then have "best = \<lparr>label = ''ABSENT'', score = 49 / 100\<rparr>"
    by (simp add: three_scores_def)
  then have "fst (predict_single (ready tie_pipe) [97]) =
      Inr \<lparr>label = ''ABSENT'', score = 49 / 100\<rparr>"
    using d(4) by (simp add: py_round_def round_half_even_def)
  with h1 h2 h3 show ?thesis by blast
qed

section \<open>Before the model is loaded\<close>

text \<open>
  C2. While the pipeline singleton is unset, \<open>predict_single\<close> and \<open>predict_batch\<close>
  fail with the \<open>RuntimeError\<close> of \<open>get_pipeline\<close> and leave the state as it was, the
  record of external calls included: the pipeline is not invoked. Both routes turn that
  error into status 503, for every request object, hence for every body that passes
  validation.
\<close>

theorem not_initialised_503:
  assumes "pipeline w = None"
  shows "\<exists>msg.
           predict_single w s = (Inl (RuntimeError msg), w) \<and>
           predict_batch w ss = (Inl (RuntimeError msg), w) \<and>
           predict w req = (Response 503 (Detail msg), w) \<and>
           predict_batch_endpoint w breq = (Response 503 (Detail msg), w) \<and>
           (PredictRequest body = Inr req \<longrightarrow>
              post_predict w body = (Response 503 (Detail msg), w)) \<and>
           (BatchPredictRequest body' = Inr breq \<longrightarrow>
              post_predict_batch w body' = (Response 503 (Detail msg), w))"
  using assms
  by (simp add: predict_single_def predict_batch_def predict_def predict_batch_endpoint_def
      post_predict_def post_predict_batch_def get_pipeline_def serialize_response_def)

text \<open>A valid body, posted to \<open>/predict\<close> before any load.\<close>

theorem not_initialised_503_witness:
  "pipeline not_ready = None \<and>
   PredictRequest (sentence_body (JStr [97])) = Inr \<lparr>request_sentence = [97]\<rparr> \<and>
   status_code (fst (post_predict not_ready (sentence_body (JStr [97])))) = 503 \<and>
   snd (post_predict not_ready (sentence_body (JStr [97]))) = not_ready"
proof -
  have h: "pipeline not_ready = None" by (simp add: not_ready_def)
  have v: "PredictRequest (sentence_body (JStr [97])) = Inr \<lparr>request_sentence = [97]\<rparr>"
    by (simp add: PredictRequest_def str_field_def sentence_must_not_be_blank_def
        py_strip_def py_isspace_def well_formed_def is_surrogate_def)
  from not_initialised_503 [OF h, of _ _ "\<lparr>request_sentence = [97]\<rparr>" _
      "sentence_body (JStr [97])"] v
  obtain msg where "post_predict not_ready (sentence_body (JStr [97])) =
      (Response 503 (Detail msg), not_ready)" by blast
  with h v show ?thesis by simp
qed

section \<open>Loading the model\<close>

text \<open>
  C7. \<open>load_model\<close> on a state whose pipeline is set returns at once with the state
  unchanged, whatever the environment: the cached pipeline, the recorded load time and
  the record of external calls stay as they were. On a state whose pipeline is unset, and
  when the tokenizer, the model and the pipeline can be obtained, it builds the pipeline
  on device 0 (the GPU) if CUDA is available and on device \<open>- 1\<close> (the CPU) otherwise,
  caches it, and records the elapsed time in milliseconds. A second call, in any
  environment, then changes nothing.
\<close>

theorem load_model_idempotent:
  "(pipeline w \<noteq> None \<longrightarrow> load_model env w = (Inr (), w)) \<and>
   (pipeline w = None \<longrightarrow>
    tokenizer_from_pretrained env MODEL_NAME = Inr tok \<longrightarrow>
    model_from_pretrained env MODEL_NAME = Inr mdl \<longrightarrow>
    make_pipeline env
      \<lparr>task = ''text-classification'', cfg_model = mdl, cfg_tokenizer = tok,
       cfg_device = (if cuda_is_available env then 0 else - 1),
       top_k = None, truncation = True, max_length = 512\<rparr> = Inr p \<longrightarrow>
    load_model env w =
      (Inr (),
       \<lparr>pipeline = Some p,
        load_time_ms = Some ((perf_counter_end env - perf_counter_start env) * 1000),
        trace = trace w @
          [TokenizerFromPretrained MODEL_NAME, ModelFromPretrained MODEL_NAME,
           BuildPipeline (if cuda_is_available env then 0 else - 1)]\<rparr>) \<and>
    load_model env' (snd (load_model env w)) = (Inr (), snd (load_model env w)))"
  by (cases w) (auto simp: load_model_def log_effect_def Let_def)

text \<open>A load without CUDA that takes one and a half seconds, followed by a second
  call.\<close>

theorem load_model_idempotent_witness:
  "pipeline not_ready = None \<and>
   load_model cpu_env not_ready =
     (Inr (), \<lparr>pipeline = Some tie_pipe, load_time_ms = Some 1500,
       trace = [TokenizerFromPretrained MODEL_NAME, ModelFromPretrained MODEL_NAME,
                BuildPipeline (- 1)]\<rparr>) \<and>
   load_model cpu_env (snd (load_model cpu_env not_ready)) =
     (Inr (), snd (load_model cpu_env not_ready))"
proof -
  have h1: "pipeline not_ready = None" by (simp add: not_ready_def)
  have h2: "tokenizer_from_pretrained cpu_env MODEL_NAME = Inr ()"
    and h3: "model_from_pretrained cpu_env MODEL_NAME = Inr ()"
    and h4: "make_pipeline cpu_env
      \<lparr>task = ''text-classification'', cfg_model = (), cfg_tokenizer = (),
       cfg_device = (if cuda_is_available cpu_env then 0 else - 1),
       top_k = None, truncation = True, max_length = 512\<rparr> = Inr tie_pipe"
    by (simp_all add: cpu_env_def)
  have c: "cuda_is_available cpu_env = False" "trace not_ready = []"
    "(perf_counter_end cpu_env - perf_counter_start cpu_env) * 1000 = 1500"
    by (simp_all add: cpu_env_def not_ready_def)
  from load_model_idempotent [of not_ready cpu_env "()" "()" tie_pipe cpu_env] h1 h2 h3 h4
  have "load_model cpu_env not_ready =
      (Inr (),
       \<lparr>pipeline = Some tie_pipe,
        load_time_ms = Some ((perf_counter_end cpu_env - perf_counter_start cpu_env) * 1000),
        trace = trace not_ready @
          [TokenizerFromPretrained MODEL_NAME, ModelFromPretrained MODEL_NAME,
           BuildPipeline (if cuda_is_available cpu_env then 0 else - 1)]\<rparr>) \<and>
    load_model cpu_env (snd (load_model cpu_env not_ready)) =
      (Inr (), snd (load_model cpu_env not_ready))"
    by blast
  then have a: "load_model cpu_env not_ready =
      (Inr (),
       \<lparr>pipeline = Some tie_pipe,
        load_time_ms = Some ((perf_counter_end cpu_env - perf_counter_start cpu_env) * 1000),
        trace = trace not_ready @
          [TokenizerFromPretrained MODEL_NAME, ModelFromPretrained MODEL_NAME,
           BuildPipeline (if cuda_is_available cpu_env then 0 else - 1)]\<rparr>)"
    and b: "load_model cpu_env (snd (load_model cpu_env not_ready)) =
      (Inr (), snd (load_model cpu_env not_ready))"
    by blast+
  show ?thesis
    by (intro conjI h1 b a [unfolded c if_False append_Nil])
qed

section \<open>The health probe\<close>

text \<open>
  C8. \<open>GET /health\<close> answers 503 while the pipeline is unset, and 200 with status
  \<open>ok\<close>, the model name, \<open>model_loaded = True\<close> and the device once it is set. In
  both cases the state is returned as it was: the probe neither loads the model nor
  invokes it, and it makes no call that could wait.
\<close>

theorem health_probe:
  "(pipeline w = None \<longrightarrow>
      health env w =
        (Response 503 (Detail ''Model is not yet loaded. Service is not ready.''), w)) \<and>
   (pipeline w = Some p \<longrightarrow>
      health env w =
        (Response 200 (HealthContent
           \<lparr>health_status = ''ok'', health_model_name = MODEL_NAME,
            health_model_loaded = True,
            health_device = (if cuda_is_available env then ''GPU (CUDA)'' else ''CPU'')\<rparr>), w))"
  by (simp add: health_def get_model_info_def Let_def)

text \<open>The probe before and after a load, on a machine without CUDA.\<close>

theorem health_probe_witness:
  "pipeline not_ready = None \<and>
   status_code (fst (health cpu_env not_ready)) = 503 \<and>
   snd (health cpu_env not_ready) = not_ready \<and>
   pipeline (ready tie_pipe) = Some tie_pipe \<and>
   health cpu_env (ready tie_pipe) =
     (Response 200 (HealthContent
        \<lparr>health_status = ''ok'', health_model_name = MODEL_NAME,
         health_model_loaded = True, health_device = ''CPU''\<rparr>), ready tie_pipe)"
  using health_probe [of not_ready cpu_env tie_pipe] health_probe [of "ready tie_pipe" cpu_env tie_pipe]
  by (simp add: not_ready_def ready_def cpu_env_def)

section \<open>Failures of the pipeline\<close>

text \<open>
  C9. A pipeline that fails with a \<open>RuntimeError\<close> on a loaded model: both routes
  answer 503, not 500, and the detail is the text of the pipeline's own error. The
  pipeline is invoked once.
\<close>

theorem provider_runtime_error_echoed:
  "predict (ready oom_pipe) \<lparr>request_sentence = [97]\<rparr> =
     (Response 503 (Detail ''CUDA out of memory''),
      log_effect (Infer (Single [97])) (ready oom_pipe)) \<and>
   predict_batch_endpoint (ready oom_pipe) \<lparr>request_sentences = [[97]]\<rparr> =
     (Response 503 (Detail ''CUDA out of memory''),
      log_effect (Infer (Batch [[97]] 16)) (ready oom_pipe))"
  by (simp add: predict_def predict_single_def predict_batch_endpoint_def predict_batch_def
      get_pipeline_def ready_def oom_pipe_def Let_def)

text \<open>Every failure of the pipeline that is not a \<open>RuntimeError\<close> is answered with 500
  and a fixed detail, after a single invocation.\<close>

lemma provider_failure_500:
  assumes "pipeline w = Some p" and "\<And>msg. e \<noteq> RuntimeError msg"
  shows "p (Single (request_sentence req)) = Inl e \<Longrightarrow>
           predict w req = (Response 500 (Detail ''Prediction failed.''),
             log_effect (Infer (Single (request_sentence req))) w)"
    and "p (Batch (request_sentences breq) 16) = Inl e \<Longrightarrow>
           predict_batch_endpoint w breq = (Response 500 (Detail ''Batch prediction failed.''),
             log_effect (Infer (Batch (request_sentences breq) 16)) w)"
  using assms
  by (cases e; simp add: predict_def predict_single_def predict_batch_endpoint_def
      predict_batch_def get_pipeline_def Let_def)+

section \<open>Label and score of a single response\<close>

text \<open>
  C6. A pipeline whose only entry carries the label \<open>POSSIBLE\<close>, on a loaded model and
  for a valid sentence: the response is 200, its score lies between 0 and 1, and its
  label is not one of \<open>PRESENT\<close>, \<open>ABSENT\<close>, \<open>CONDITIONAL\<close>.
\<close>

theorem label_outside_closed_set:
  "fst (post_predict (ready possible_pipe) (sentence_body (JStr [97]))) =
     Response 200 (PredictContent \<lparr>label = ''POSSIBLE'', score = 9 / 10\<rparr>) \<and>
   ''POSSIBLE'' \<notin> closed_labels"
  by (simp add: post_predict_def PredictRequest_def str_field_def
      sentence_must_not_be_blank_def py_strip_def py_isspace_def well_formed_def
      is_surrogate_def predict_def predict_single_def
      get_pipeline_def ready_def possible_pipe_def Let_def PredictResponse_def score_field_def
      py_round_def round_half_even_def closed_labels_def serialize_response_def)

text \<open>What holds of every 200 response to \<open>POST /predict\<close>: the score lies between 0
  and 1, because the response model checks it, and the label is the label of one of the
  entries that the pipeline returned for the trimmed sentence, whatever that label is.\<close>

lemma predict_single_Inr:
  assumes "predict_single w s = (Inr r, w')"
  shows "\<exists>p all_scores rest best.
           pipeline w = Some p \<and> p (Single s) = Inr (all_scores # rest) \<and>
           py_max score all_scores = Inr best \<and>
           r = \<lparr>label = label best, score = py_round (score best) 4\<rparr> \<and>
           w' = log_effect (Infer (Single s)) w"
  using assms
  by (auto simp: predict_single_def get_pipeline_def Let_def
      split: option.splits sum.splits list.splits)

lemma predict_200:
  assumes "predict w req = (Response 200 (PredictContent r), w')"
  shows "\<exists>r0. predict_single w (request_sentence req) = (Inr r0, w') \<and>
           PredictResponse r0 = Inr r"
  using assms
  by (auto simp: predict_def generic_exception_handler_def
      split: prod.splits sum.splits exc.splits)

lemma PredictResponse_Inr:
  "PredictResponse r0 = Inr r \<Longrightarrow> r = r0 \<and> 0 \<le> score r0 \<and> score r0 \<le> 1"
  by (auto simp: PredictResponse_def score_field_def split: if_splits)

lemma serialize_response_200:
  "serialize_response r = Response 200 c \<Longrightarrow> r = Response 200 c"
  by (auto simp: serialize_response_def generic_exception_handler_def
      split: content.splits if_splits)

lemma predict_response_label_score:
  assumes "post_predict w body = (Response 200 (PredictContent r), w')"
  shows "0 \<le> score r \<and> score r \<le> 1 \<and>
         (\<exists>req p all_scores rest.
            PredictRequest body = Inr req \<and> pipeline w = Some p \<and>
            p (Single (request_sentence req)) = Inr (all_scores # rest) \<and>
            label r \<in> label ` set all_scores)"
proof -
  from assms obtain req where v: "PredictRequest body = Inr req"
    and p: "predict w req = (Response 200 (PredictContent r), w')"
    by (auto simp: post_predict_def request_validation_error_def
        generic_exception_handler_def
        split: sum.splits prod.splits if_splits dest: serialize_response_200)
  from predict_200 [OF p] obtain r0 where
    s: "predict_single w (request_sentence req) = (Inr r0, w')" and
    pr: "PredictResponse r0 = Inr r" by blast
  from PredictResponse_Inr [OF pr] have b: "r = r0" "0 \<le> score r" "score r \<le> 1" by auto
  from predict_single_Inr [OF s] obtain p all_scores rest best where
    d: "pipeline w = Some p" "p (Single (request_sentence req)) = Inr (all_scores # rest)"
       "py_max score all_scores = Inr best"
       "r0 = \<lparr>label = label best, score = py_round (score best) 4\<rparr>"
    by blast
  from d(3) have "best \<in> set all_scores" by (rule py_max_mem)
  with d(4) b(1) have m: "label r \<in> label ` set all_scores" by simp
  with b v d(1,2) show ?thesis by blast
qed

section \<open>Batches\<close>

text \<open>The loop succeeds exactly when every pair yields a result, and then appends the
  results pair by pair.\<close>

lemma batch_loop_Inr_iff:
  "batch_loop zs acc = Inr rs \<longleftrightarrow> (\<exists>rs'. rs = acc @ rs' \<and> list_all2 result_for zs rs')"
proof (induction zs acc rule: batch_loop.induct)
  case (1 results)
  then show ?case by auto
next
  case (2 s all_scores rest results)
  show ?case
  proof (cases "py_max score all_scores")
    case (Inl e)
    then show ?thesis by (auto simp: list_all2_Cons1 result_for_def)
  next
    case (Inr best)
    with 2 show ?thesis
      by (auto simp: list_all2_Cons1 result_for_def)
  qed
qed

lemma batch_loop_total:
  "\<forall>z\<in>set zs. snd z \<noteq> [] \<Longrightarrow> \<exists>rs. batch_loop zs acc = Inr rs"
proof (induction zs acc rule: batch_loop.induct)
  case (1 results)
  then show ?case by simp
next
  case (2 s all_scores rest results)
  then obtain best where "py_max score all_scores = Inr best"
    by (cases all_scores) auto
  with 2 show ?case by simp
qed

lemma result_for_sentence: "result_for z r \<Longrightarrow> sentence r = fst z"
  by (auto simp: result_for_def split: sum.splits)

lemma list_all2_result_for_sentences:
  "list_all2 result_for zs rs \<Longrightarrow> map sentence rs = map fst zs"
  by (induction rule: list_all2_induct) (auto simp: result_for_sentence)

lemma map_fst_zip_right: "map fst (zip xs ys) = take (length ys) xs"
  by (simp add: map_fst_zip_take min_def)

lemma batch_items_Inr: "batch_items rs = Inr items \<Longrightarrow>
    items = rs \<and> (\<forall>r\<in>set rs. 0 \<le> score r \<and> score r \<le> 1)"
  by (induction rs arbitrary: items)
     (auto simp: BatchPredictItem_def score_field_def split: sum.splits if_splits)

lemma batch_items_total:
  "\<forall>r\<in>set rs. 0 \<le> score r \<and> score r \<le> 1 \<Longrightarrow> batch_items rs = Inr rs"
  by (induction rs) (auto simp: BatchPredictItem_def score_field_def)



lemma predict_batch_Inr:
  assumes "predict_batch w ss = (Inr rs, w')"
  shows "\<exists>p raw. pipeline w = Some p \<and> p (Batch ss 16) = Inr raw \<and>
           batch_loop (zip ss raw) [] = Inr rs \<and> w' = log_effect (Infer (Batch ss 16)) w"
  using assms
  by (auto simp: predict_batch_def get_pipeline_def Let_def split: option.splits sum.splits)

lemma predict_batch_endpoint_200:
  assumes "predict_batch_endpoint w breq = (Response 200 (BatchContent resp), w')"
  shows "predict_batch w (request_sentences breq) = (Inr (results resp), w') \<and>
         count resp = length (results resp) \<and>
         (\<forall>r\<in>set (results resp). 0 \<le> score r \<and> score r \<le> 1)"
  using assms
  by (auto simp: predict_batch_endpoint_def generic_exception_handler_def
      split: prod.splits sum.splits exc.splits dest: batch_items_Inr)

lemma result_for_score:
  assumes "result_for z r" and "\<forall>e\<in>set (snd z). 0 \<le> score e \<and> score e \<le> 1"
  shows "0 \<le> score r \<and> score r \<le> 1"
proof -
  from assms(1) obtain best where b: "py_max score (snd z) = Inr best"
    and r: "r = \<lparr>label = label best, score = py_round (score best) 4, sentence = fst z\<rparr>"
    by (auto simp: result_for_def split: sum.splits)
  from b have "best \<in> set (snd z)" by (rule py_max_mem)
  with assms(2) have "0 \<le> score best" "score best \<le> 1" by auto
  from py_round_unit_interval [OF this, of 4] r show ?thesis by simp
qed

lemma list_all2_result_for_scores:
  "list_all2 result_for zs rs \<Longrightarrow>
   \<forall>z\<in>set zs. snd z \<noteq> [] \<and> (\<forall>e\<in>set (snd z). 0 \<le> score e \<and> score e \<le> 1) \<Longrightarrow>
   \<forall>r\<in>set rs. 0 \<le> score r \<and> score r \<le> 1"
proof (induction rule: list_all2_induct)
  case Nil
  then show ?case by simp
next
  case (Cons z zs r rs)
  from Cons.prems have "\<forall>e\<in>set (snd z). 0 \<le> score e \<and> score e \<le> 1" by simp
  from result_for_score [OF Cons.hyps(1) this] Cons.IH Cons.prems
  show ?case by simp
qed

lemma post_predict_batch_200:
  assumes "BatchPredictRequest body = Inr req"
    and "post_predict_batch w body = (Response 200 (BatchContent resp), w')"
  shows "\<exists>p raw.
           pipeline w = Some p \<and> p (Batch (request_sentences req) 16) = Inr raw \<and>
           count resp = length (results resp) \<and>
           length (results resp) = min (length (request_sentences req)) (length raw) \<and>
           map sentence (results resp) = take (length raw) (request_sentences req) \<and>
           list_all2 result_for (zip (request_sentences req) raw) (results resp)"
proof -
  from assms have e: "predict_batch_endpoint w req = (Response 200 (BatchContent resp), w')"
    by (auto simp: post_predict_batch_def split: prod.splits dest: serialize_response_200)
  from predict_batch_endpoint_200 [OF e] have
    pb: "predict_batch w (request_sentences req) = (Inr (results resp), w')" and
    c: "count resp = length (results resp)" by blast+
  from predict_batch_Inr [OF pb] obtain p raw where
    d: "pipeline w = Some p" "p (Batch (request_sentences req) 16) = Inr raw"
       "batch_loop (zip (request_sentences req) raw) [] = Inr (results resp)" by blast
  from d(3) have a: "list_all2 result_for (zip (request_sentences req) raw) (results resp)"
    by (simp add: batch_loop_Inr_iff)
  have len: "length (results resp) = min (length (request_sentences req)) (length raw)"
    using list_all2_lengthD [OF a] by simp
  have sen: "map sentence (results resp) = take (length raw) (request_sentences req)"
    using list_all2_result_for_sentences [OF a] by (simp add: map_fst_zip_right)
  from d(1,2) c len sen a show ?thesis by blast
qed

text \<open>The request model of \<open>POST /predict/batch\<close> accepts a body exactly when its
  \<open>sentences\<close> field is a list of 1 to 64 strings, none blank after trimming, and the
  accepted request carries the trimmed strings in order.\<close>

lemma str_items_map: "str_items i (map JStr ss) = ([], ss)"
  by (induction ss arbitrary: i) auto

lemma str_items_Nil: "str_items i xs = ([], ss) \<Longrightarrow> xs = map JStr ss"
  by (induction xs arbitrary: i ss) (auto split: json.splits prod.splits)

lemma validate_sentences_loop_Inr_iff:
  "validate_sentences_loop i v acc = Inr c \<longleftrightarrow>
     (\<forall>s\<in>set v. py_strip s \<noteq> []) \<and> c = acc @ map py_strip v"
  by (induction i v acc rule: validate_sentences_loop.induct) auto

lemma BatchPredictRequest_Inr_iff:
  "BatchPredictRequest body = Inr req \<longleftrightarrow>
     (\<exists>ss. field (ascii ''sentences'') body = Inr (JArr (map JStr ss)) \<and>
           1 \<le> length ss \<and> length ss \<le> 64 \<and> (\<forall>s\<in>set ss. py_strip s \<noteq> []) \<and>
           req = \<lparr>request_sentences = map py_strip ss\<rparr>)"
proof
  assume "BatchPredictRequest body = Inr req"
  then obtain v ss cleaned where
    f: "field (ascii ''sentences'') body = Inr v" and l: "str_list_field 1 64 v = Inr ss" and
    c: "validate_sentences ss = Inr cleaned" and r: "req = \<lparr>request_sentences = cleaned\<rparr>"
    by (auto simp: BatchPredictRequest_def split: sum.splits)
  from l obtain xs where v: "v = JArr xs" and i: "str_items 0 xs = ([], ss)"
    and b: "1 \<le> length ss" "length ss \<le> 64"
    by (auto simp: str_list_field_def Suc_le_eq
        split: json.splits prod.splits list.splits if_splits dest: str_items_Nil)
  from i have "xs = map JStr ss" by (rule str_items_Nil)
  with f v c r b show "\<exists>ss. field (ascii ''sentences'') body = Inr (JArr (map JStr ss)) \<and>
           1 \<le> length ss \<and> length ss \<le> 64 \<and> (\<forall>s\<in>set ss. py_strip s \<noteq> []) \<and>
           req = \<lparr>request_sentences = map py_strip ss\<rparr>"
    by (auto simp: validate_sentences_def validate_sentences_loop_Inr_iff)
next
  assume "\<exists>ss. field (ascii ''sentences'') body = Inr (JArr (map JStr ss)) \<and>
           1 \<le> length ss \<and> length ss \<le> 64 \<and> (\<forall>s\<in>set ss. py_strip s \<noteq> []) \<and>
           req = \<lparr>request_sentences = map py_strip ss\<rparr>"
  then obtain ss where f: "field (ascii ''sentences'') body = Inr (JArr (map JStr ss))"
    and b: "1 \<le> length ss" "length ss \<le> 64" and n: "\<forall>s\<in>set ss. py_strip s \<noteq> []"
    and r: "req = \<lparr>request_sentences = map py_strip ss\<rparr>" by blast
  have l: "str_list_field 1 64 (JArr (map JStr ss)) = Inr ss"
    using b by (auto simp: str_list_field_def str_items_map)
  have c: "validate_sentences ss = Inr (map py_strip ss)"
    using n by (simp add: validate_sentences_def validate_sentences_loop_Inr_iff)
  show "BatchPredictRequest body = Inr req"
    using f l c r by (simp add: BatchPredictRequest_def)
qed

lemma BatchPredictRequest_length:
  "BatchPredictRequest body = Inr req \<Longrightarrow>
     1 \<le> length (request_sentences req) \<and> length (request_sentences req) \<le> 64"
  by (auto simp: BatchPredictRequest_Inr_iff)

text \<open>
  C1. For every batch request that passes validation, on a loaded model whose pipeline
  returns one score list for each validated sentence: in every 200 response the
  results are in the order of the validated input, the result at each position carries
  the sentence at that position and is computed from the score list at that position,
  and \<open>count\<close> is the length of the results, which is the length of the validated
  input, between 1 and 64. The response is 200 whenever, in addition, no score list is
  empty, every score lies between 0 and 1, and no sentence holds a lone surrogate.
\<close>

theorem batch_response_mirrors_input:
  assumes "BatchPredictRequest body = Inr req"
    and "pipeline w = Some p"
    and "p (Batch (request_sentences req) 16) = Inr raw"
    and "length raw = length (request_sentences req)"
  shows "(\<forall>resp w'. post_predict_batch w body = (Response 200 (BatchContent resp), w') \<longrightarrow>
            map sentence (results resp) = request_sentences req \<and>
            list_all2 result_for (zip (request_sentences req) raw) (results resp) \<and>
            count resp = length (results resp) \<and>
            length (results resp) = length (request_sentences req) \<and>
            1 \<le> count resp \<and> count resp \<le> 64) \<and>
         ((\<forall>sc\<in>set raw. sc \<noteq> [] \<and> (\<forall>e\<in>set sc. 0 \<le> score e \<and> score e \<le> 1)) \<and>
          (\<forall>s\<in>set (request_sentences req). well_formed s) \<longrightarrow>
            (\<exists>resp w'. post_predict_batch w body = (Response 200 (BatchContent resp), w')))"
proof (intro conjI allI impI)
  fix resp w'
  assume r: "post_predict_batch w body = (Response 200 (BatchContent resp), w')"
  from post_predict_batch_200 [OF assms(1) r] assms(2,3) have
    c: "count resp = length (results resp)" and
    len: "length (results resp) = min (length (request_sentences req)) (length raw)" and
    sen: "map sentence (results resp) = take (length raw) (request_sentences req)" and
    a: "list_all2 result_for (zip (request_sentences req) raw) (results resp)"
    by auto
  from sen assms(4) show "map sentence (results resp) = request_sentences req" by simp
  from a show "list_all2 result_for (zip (request_sentences req) raw) (results resp)" .
  from c show "count resp = length (results resp)" .
  from len assms(4) show l: "length (results resp) = length (request_sentences req)" by simp
  from BatchPredictRequest_length [OF assms(1)] c l
  show "1 \<le> count resp" and "count resp \<le> 64" by simp_all
next
  assume h: "(\<forall>sc\<in>set raw. sc \<noteq> [] \<and> (\<forall>e\<in>set sc. 0 \<le> score e \<and> score e \<le> 1)) \<and>
          (\<forall>s\<in>set (request_sentences req). well_formed s)"
  let ?ss = "request_sentences req"
  have z: "\<forall>z\<in>set (zip ?ss raw). snd z \<noteq> [] \<and> (\<forall>e\<in>set (snd z). 0 \<le> score e \<and> score e \<le> 1)"
    using h by (auto dest!: set_zip_rightD)
  then have "\<forall>z\<in>set (zip ?ss raw). snd z \<noteq> []" by blast
  from batch_loop_total [OF this] obtain rs where l: "batch_loop (zip ?ss raw) [] = Inr rs"
    by blast
  then have a: "list_all2 result_for (zip ?ss raw) rs"
    by (simp add: batch_loop_Inr_iff)
  have sc: "\<forall>r\<in>set rs. 0 \<le> score r \<and> score r \<le> 1"
    using a z by (rule list_all2_result_for_scores)
  have sen: "map sentence rs = ?ss"
    using list_all2_result_for_sentences [OF a] assms(4) by (simp add: map_fst_zip_right)
  have wf: "list_all (\<lambda>item. well_formed (sentence item)) rs"
  proof -
    have "\<forall>s\<in>set (map sentence rs). well_formed s" using h sen by simp
    then show ?thesis by (simp add: list_all_iff)
  qed
  have pb: "predict_batch w ?ss = (Inr rs, log_effect (Infer (Batch ?ss 16)) w)"
    using assms(2,3) l by (simp add: predict_batch_def get_pipeline_def Let_def)
  have "post_predict_batch w body =
      (Response 200 (BatchContent \<lparr>results = rs, count = length rs\<rparr>),
       log_effect (Infer (Batch ?ss 16)) w)"
    using assms(1) pb batch_items_total [OF sc] wf
    by (simp add: post_predict_batch_def predict_batch_endpoint_def serialize_response_def)
  then show "\<exists>resp w'. post_predict_batch w body = (Response 200 (BatchContent resp), w')"
    by blast
qed

lemma batch_two_valid:
  "BatchPredictRequest (sentences_body [[32, 97], [98, 32]]) =
     Inr \<lparr>request_sentences = [[97], [98]]\<rparr>"
  by (simp add: BatchPredictRequest_def str_list_field_def
      validate_sentences_def py_strip_def py_isspace_def)

lemma batch_two_response:
  "post_predict_batch (ready tie_pipe) (sentences_body [[32, 97], [98, 32]]) =
     (Response 200 (BatchContent
       \<lparr>results = [\<lparr>label = ''ABSENT'', score = 49 / 100, sentence = [97]\<rparr>,
                   \<lparr>label = ''ABSENT'', score = 49 / 100, sentence = [98]\<rparr>], count = 2\<rparr>),
      log_effect (Infer (Batch [[97], [98]] 16)) (ready tie_pipe))"
  by (simp add: post_predict_batch_def batch_two_valid predict_batch_endpoint_def
      predict_batch_def get_pipeline_def ready_def tie_pipe_def three_scores_def Let_def
      BatchPredictItem_def score_field_def py_round_def round_half_even_def
      serialize_response_def well_formed_def is_surrogate_def)

text \<open>Two sentences with surrounding blanks and the three-score provider, which answers
  a batch with one score list per sentence.\<close>

theorem batch_response_mirrors_input_witness:
  "BatchPredictRequest (sentences_body [[32, 97], [98, 32]]) =
     Inr \<lparr>request_sentences = [[97], [98]]\<rparr> \<and>
   pipeline (ready tie_pipe) = Some tie_pipe \<and>
   tie_pipe (Batch [[97], [98]] 16) = Inr [three_scores, three_scores] \<and>
   length [three_scores, three_scores] = length [[97::nat], [98]] \<and>
   post_predict_batch (ready tie_pipe) (sentences_body [[32, 97], [98, 32]]) =
     (Response 200 (BatchContent
       \<lparr>results = [\<lparr>label = ''ABSENT'', score = 49 / 100, sentence = [97]\<rparr>,
                   \<lparr>label = ''ABSENT'', score = 49 / 100, sentence = [98]\<rparr>], count = 2\<rparr>),
      log_effect (Infer (Batch [[97], [98]] 16)) (ready tie_pipe)) \<and>
   map sentence [\<lparr>label = ''ABSENT'', score = 49 / 100, sentence = [97]\<rparr>,
                 \<lparr>label = ''ABSENT'', score = 49 / 100, sentence = [98]\<rparr>] = [[97], [98]] \<and>
   (2::nat) = length [[97::nat], [98]]"
proof -
  have h2: "pipeline (ready tie_pipe) = Some tie_pipe" by (simp add: ready_def)
  have h3: "tie_pipe (Batch (request_sentences \<lparr>request_sentences = [[97], [98]]\<rparr>) 16) =
      Inr [three_scores, three_scores]"
    by (simp add: tie_pipe_def)
  have h4: "length [three_scores, three_scores] =
      length (request_sentences \<lparr>request_sentences = [[97], [98]]\<rparr>)" by simp
  from batch_response_mirrors_input [OF batch_two_valid h2 h3 h4] batch_two_response
  have "map sentence [\<lparr>label = ''ABSENT'', score = 49 / 100, sentence = [97]\<rparr>,
                 \<lparr>label = ''ABSENT'', score = 49 / 100, sentence = [98]\<rparr>] = [[97], [98]]"
    by simp
  with batch_two_valid h2 h3 batch_two_response show ?thesis by simp
qed

section \<open>Validation of requests\<close>







lemma not_space_97: "\<not> py_isspace 97"
  by (simp add: py_isspace_def)

lemma not_surrogate_97: "\<not> is_surrogate 97"
  by (simp add: is_surrogate_def)


text \<open>A rejected batch leaves the state as it was, and is answered with 422 when no
  string in the body holds a lone surrogate. A body that is valid in the words of the
  specification is accepted.\<close>

lemma str_items_inputs: "e \<in> set (fst (str_items i xs)) \<Longrightarrow> snd e \<in> set xs"
proof (induction xs arbitrary: i)
  case Nil
  then show ?case by simp
next
  case (Cons x xs)
  obtain errs ss where r: "str_items (Suc i) xs = (errs, ss)"
    by (cases "str_items (Suc i) xs")
  with Cons.prems have "e \<in> set errs \<or> snd e = x"
    by (auto split: json.splits)
  moreover have "snd e \<in> set xs" if "e \<in> set errs"
    using Cons.IH [of "Suc i"] r that by simp
  ultimately show ?case by auto
qed

lemma BatchPredictRequest_Inl_encodable:
  assumes "BatchPredictRequest body = Inl errs" and "encodable body"
  shows "list_all (\<lambda>e. encodable (snd e)) errs"
proof (cases "field (ascii ''sentences'') body")
  case (Inl es)
  with assms show ?thesis
    by (auto simp: BatchPredictRequest_def field_def split: json.splits option.splits)
next
  case (Inr v)
  from field_encodable [OF Inr assms(2)] have ev: "encodable v" .
  show ?thesis
  proof (cases "str_list_field 1 64 v")
    case (Inl es)
    with assms(1) Inr have es: "errs = es" by (simp add: BatchPredictRequest_def)
    show ?thesis
    proof (cases v)
      case (JArr xs)
      have "encodable (snd e)" if "e \<in> set (fst (str_items 0 xs))" for e
        using str_items_inputs [OF that] ev JArr by (simp add: list_all_iff)
      with Inl JArr ev es show ?thesis
        by (auto simp: str_list_field_def list_all_iff
            split: if_splits prod.splits list.splits)
    qed (use Inl ev es in \<open>auto simp: str_list_field_def\<close>)
  next
    case (Inr ss)
    then have "v = JArr (map JStr ss)"
      by (auto simp: str_list_field_def
          split: json.splits if_splits prod.splits list.splits dest: str_items_Nil)
    with assms(1) \<open>field (ascii ''sentences'') body = Inr v\<close> Inr ev show ?thesis
      by (auto simp: BatchPredictRequest_def split: sum.splits)
  qed
qed

lemma batch_rejected:
  assumes "BatchPredictRequest body = Inl errs"
  shows "snd (post_predict_batch w body) = w \<and>
         (encodable body \<longrightarrow> status_code (fst (post_predict_batch w body)) = 422)"
  using assms BatchPredictRequest_Inl_encodable [OF assms]
  by (simp add: post_predict_batch_def request_validation_error_def)

lemma spec_valid_sentences_accepted:
  "spec_valid_sentences body \<Longrightarrow> \<exists>req. BatchPredictRequest body = Inr req"
proof -
  assume v: "spec_valid_sentences body"
  then obtain xs where f: "field (ascii ''sentences'') body = Inr (JArr xs)"
    and l: "1 \<le> length xs" "length xs \<le> 64" and a: "list_all spec_valid_element xs"
    by (auto simp: spec_valid_sentences_def split: sum.splits json.splits)
  from a have "\<exists>ss. xs = map JStr ss \<and> (\<forall>s\<in>set ss. py_strip s \<noteq> [])"
  proof (induction xs)
    case Nil
    then show ?case by simp
  next
    case (Cons x xs)
    then obtain ss where "xs = map JStr ss" "\<forall>s\<in>set ss. py_strip s \<noteq> []" by auto
    moreover from Cons.prems obtain s where "x = JStr s" "py_strip s \<noteq> []"
      by (auto simp: spec_valid_element_def split: json.splits)
    ultimately have "x # xs = map JStr (s # ss) \<and> (\<forall>t\<in>set (s # ss). py_strip t \<noteq> [])"
      by simp
    then show ?case by (rule exI [of _ "s # ss"])
  qed
  then obtain ss where "xs = map JStr ss" "\<forall>s\<in>set ss. py_strip s \<noteq> []" by blast
  with f l show ?thesis by (auto simp: BatchPredictRequest_Inr_iff)
qed

text \<open>
  C4. A batch whose only element has 2049 characters is not valid in the words of the
  specification, which bound every element by 2048 characters as \<open>POST /predict\<close>
  does. The request model accepts it, and on a loaded model the answer is 200 with a
  result for the over-long sentence.
\<close>

theorem batch_element_length_unchecked:
  "\<not> spec_valid_sentences long_batch \<and>
   length long_sentence = 2049 \<and>
   BatchPredictRequest long_batch = Inr \<lparr>request_sentences = [long_sentence]\<rparr> \<and>
   fst (post_predict_batch (ready tie_pipe) long_batch) =
     Response 200 (BatchContent
       \<lparr>results = [\<lparr>label = ''ABSENT'', score = 49 / 100, sentence = long_sentence\<rparr>],
        count = 1\<rparr>)"
proof -
  have s: "py_strip long_sentence = long_sentence"
    unfolding long_sentence_def by (rule py_strip_replicate [OF not_space_97])
  have wl: "well_formed long_sentence"
    unfolding long_sentence_def by (rule well_formed_replicate [OF not_surrogate_97])
  have l: "length long_sentence = 2049" by (simp add: long_sentence_def)
  have f: "field (ascii ''sentences'') long_batch = Inr (JArr [JStr long_sentence])"
    by (simp add: long_batch_def)
  have n: "\<not> spec_valid_sentences long_batch"
    by (simp add: spec_valid_sentences_def f spec_valid_element_def l)
  have ne: "long_sentence \<noteq> []" using l by auto
  have v: "BatchPredictRequest long_batch = Inr \<lparr>request_sentences = [long_sentence]\<rparr>"
    by (simp add: BatchPredictRequest_def f str_list_field_def validate_sentences_def s ne)
  have r: "fst (post_predict_batch (ready tie_pipe) long_batch) =
     Response 200 (BatchContent
       \<lparr>results = [\<lparr>label = ''ABSENT'', score = 49 / 100, sentence = long_sentence\<rparr>],
        count = 1\<rparr>)"
    by (simp add: post_predict_batch_def v predict_batch_endpoint_def
      predict_batch_def get_pipeline_def ready_def tie_pipe_def three_scores_def Let_def
      BatchPredictItem_def score_field_def py_round_def round_half_even_def
      serialize_response_def wl)
  from n l v r show ?thesis by (intro conjI)
qed

end
